theory Spec2Isabelle
  imports Main "HOL-Library.Word"
begin

section \<open>Data model (types.go, severity constants)\<close>

text \<open>
  \<^verbatim>\<open>type Severity uint32\<close>: an unsigned 32-bit integer. The six constants are
  numbered by \<^verbatim>\<open>iota\<close> from 0.
\<close>

type_synonym Severity = "32 word"

definition DebugIssuer :: Severity where "DebugIssuer = 0"
definition InfoIssuer :: Severity where "InfoIssuer = 1"
definition WarnIssuer :: Severity where "WarnIssuer = 2"
definition ErrorIssuer :: Severity where "ErrorIssuer = 3"
definition FatalIssuer :: Severity where "FatalIssuer = 4"
definition DisableIssuer :: Severity where "DisableIssuer = 5"

text \<open>
  An \<^verbatim>\<open>io.Writer\<close> is an interface value: either nil or a reference to a sink
  object. A sink is identified by its address; \<open>None\<close> is the nil interface. Whether
  a sink also implements \<^verbatim>\<open>locker\<close>, and what its dynamic type is, are properties
  of the object behind the address and are read from the environment (see \<open>is_locker\<close>,
  \<open>dyn_type\<close> and \<open>comparable_type\<close> below). A sink held by value has the
  address its value stands for: two equal values are one address.
\<close>

type_synonym addr = nat
type_synonym Writer = "addr option"

text \<open>
  \<^verbatim>\<open>type Logger struct\<close>. Strings are byte sequences; the label slice is a list
  (its length is fixed by the slice header the logger holds).
\<close>

record Logger =
  name :: string
  writer :: Writer
  minLevel :: Severity
  timeFormat :: string
  useUTC :: bool
  severityNames :: "string list"

text \<open>\<^verbatim>\<open>type Option func(*Logger)\<close>: a function that updates the logger.\<close>

type_synonym Option = "Logger \<Rightarrow> Logger"

text \<open>
  Run-time panics are values. \<open>PanicMsg\<close> carries the string handed to
  \<^verbatim>\<open>panic\<close>; the others are the Go run-time errors the code can reach
  (\<open>UncomparableType\<close> is "comparing uncomparable type").
\<close>

datatype panic =
    PanicMsg string
  | IndexOutOfRange
  | SliceBoundsOutOfRange
  | NilDereference
  | UncomparableType

section \<open>Construction and options\<close>

definition WithTimeFormat :: "string \<Rightarrow> Option" where
  "WithTimeFormat format = (\<lambda>l. l\<lparr>timeFormat := format\<rparr>)"

definition WithUTC :: "bool \<Rightarrow> Option" where
  "WithUTC utc = (\<lambda>l. l\<lparr>useUTC := utc\<rparr>)"

definition WithSeverityNames :: "string list \<Rightarrow> Option" where
  "WithSeverityNames names =
     (\<lambda>l. if length names = 5 then l\<lparr>severityNames := names\<rparr> else l)"

definition invalid_name_msg :: string where
  "invalid_name_msg =
     ''loggy: invalid name format - use '' @ [CHR 0x27] @ '': name:'' @ [CHR 0x27]"

definition invalid_writer_msg :: string where
  "invalid_writer_msg = ''loggy: invalid writer or severity level''"

text \<open>
  \<^verbatim>\<open>New\<close>: the two guards in the order of the source (the index reads are
  protected by the length test, as \<^verbatim>\<open>||\<close> short-circuits), the default fields,
  then the options applied from left to right.
\<close>

definition New :: "string \<Rightarrow> Writer \<Rightarrow> Severity \<Rightarrow> Option list \<Rightarrow> panic + Logger" where
  "New nm w minLvl opts =
     (if length nm < 3 \<or> nm ! 0 \<noteq> CHR '':'' \<or> nm ! 1 \<noteq> CHR '' ''
         \<or> nm ! (length nm - 1) \<noteq> CHR '':''
      then Inl (PanicMsg invalid_name_msg)
      else if w = None \<or> minLvl > DisableIssuer
      then Inl (PanicMsg invalid_writer_msg)
      else Inr (foldl (\<lambda>l opt. opt l)
             \<lparr>name = nm, writer = w, minLevel = minLvl,
              timeFormat = ''2006-01-02 15:04:05.000000'', useUTC = False,
              severityNames = [''debug:'', ''info:'', ''warn:'', ''error:'', ''fatal:'']\<rparr>
             opts))"

text \<open>
  The options this package provides, as data: a list of these stands for the
  \<^verbatim>\<open>opts ...Option\<close> a caller can build from the package's three constructors.
\<close>

datatype opt_spec =
    TimeFormatOpt string
  | UTCOpt bool
  | SeverityNamesOpt "string list"

fun the_option :: "opt_spec \<Rightarrow> Option" where
  "the_option (TimeFormatOpt f) = WithTimeFormat f"
| "the_option (UTCOpt u) = WithUTC u"
| "the_option (SeverityNamesOpt ns) = WithSeverityNames ns"

section \<open>Accessors and run-time mutators\<close>

text \<open>
  \<^verbatim>\<open>l.name[2 : len(l.name)-1]\<close>: Go panics when the upper bound is below the
  lower one, that is when the name has fewer than 3 bytes.
\<close>

definition Name :: "Logger \<Rightarrow> panic + string" where
  "Name l =
     (if length (name l) < 3 then Inl SliceBoundsOutOfRange
      else Inr (take (length (name l) - 1 - 2) (drop 2 (name l))))"

definition SetLevel :: "Logger \<Rightarrow> Severity \<Rightarrow> Logger" where
  "SetLevel l level = (if level \<le> DisableIssuer then l\<lparr>minLevel := level\<rparr> else l)"

definition GetLevel :: "Logger \<Rightarrow> Severity" where
  "GetLevel l = minLevel l"

section \<open>The environment of a call\<close>

text \<open>
  A message component is an \<^verbatim>\<open>interface{}\<close>: a \<^verbatim>\<open>Caller\<close> (a Go
  \<^verbatim>\<open>int\<close>; it is only compared with 0 and 99, so its width does not matter), a
  \<^verbatim>\<open>string\<close>, or any other value (type \<open>'v\<close>).
\<close>

datatype 'v arg = CallerArg int | StringArg string | ValueArg 'v

text \<open>What a call does to sinks, in order.\<close>

datatype event = EvLock addr | EvWrite addr string | EvUnlock addr

text \<open>
  Everything the package calls but does not define is a field of the environment:
  \<^item> \<open>fmt_now utc layout\<close> is \<^verbatim>\<open>time.Now()\<close>, converted with
    \<^verbatim>\<open>.UTC()\<close> when \<open>utc\<close>, formatted with \<^verbatim>\<open>.Format(layout)\<close>;
  \<^item> \<open>rt_caller n\<close> is \<^verbatim>\<open>runtime.Caller(n)\<close> evaluated inside
    \<^verbatim>\<open>Log\<close>: the file and line when it reports ok, \<open>None\<close> otherwise;
  \<^item> \<open>path_base\<close> is \<^verbatim>\<open>filepath.Base\<close>, \<open>itoa\<close> is
    \<^verbatim>\<open>strconv.Itoa\<close>, \<open>sprint\<close> is \<^verbatim>\<open>fmt.Sprint\<close> and
    \<open>sprintf\<close> is \<^verbatim>\<open>fmt.Sprintf\<close>;
  \<^item> \<open>is_locker a\<close> tells whether the sink at \<open>a\<close> has \<^verbatim>\<open>Lock\<close> and
    \<^verbatim>\<open>Unlock\<close>;
  \<^item> \<open>io_write a s\<close> is the error of \<^verbatim>\<open>io.WriteString\<close> on the sink at
    \<open>a\<close> (\<open>None\<close> is a nil error, \<open>Some e\<close> an error whose text is \<open>e\<close>);
  \<^item> \<open>dyn_type a\<close> is the dynamic type of the sink at \<open>a\<close> (a number standing
    for the type), and \<open>comparable_type t\<close> tells whether Go can compare two values of
    type \<open>t\<close> with \<^verbatim>\<open>==\<close> (pointers can; a struct with a slice, map or function
    field cannot).
\<close>

record 'v env =
  fmt_now :: "bool \<Rightarrow> string \<Rightarrow> string"
  rt_caller :: "int \<Rightarrow> (string \<times> int) option"
  path_base :: "string \<Rightarrow> string"
  itoa :: "int \<Rightarrow> string"
  sprint :: "'v arg list \<Rightarrow> string"
  sprintf :: "string \<Rightarrow> 'v arg list \<Rightarrow> string"
  is_locker :: "addr \<Rightarrow> bool"
  io_write :: "addr \<Rightarrow> string \<Rightarrow> string option"
  dyn_type :: "addr \<Rightarrow> nat"
  comparable_type :: "nat \<Rightarrow> bool"

section \<open>UpdateWriter\<close>

text \<open>
  \<^verbatim>\<open>currentLocker != newLocker\<close> on two interface values that are not nil: values of
  different dynamic types are unequal; two values of one dynamic type that is not
  comparable make the comparison panic at run time; otherwise the values are compared,
  that is the identities of the sinks.
\<close>

definition iface_neq :: "'v env \<Rightarrow> addr \<Rightarrow> addr \<Rightarrow> panic + bool" where
  "iface_neq env c a =
     (if dyn_type env c \<noteq> dyn_type env a then Inr True
      else if \<not> comparable_type env (dyn_type env c) then Inl UncomparableType
      else Inr (c \<noteq> a))"

text \<open>
  The type assertion \<^verbatim>\<open>l.writer.(locker)\<close> fails on a nil interface. The
  condition of line 117 is evaluated from left to right, so the two lockers are
  compared only when both sinks are lockers. The lock of the current sink is taken
  around the assignment and released on return. The result is the events, the logger
  afterwards, and either a panic or the returned boolean.
\<close>

definition UpdateWriter ::
  "'v env \<Rightarrow> Logger \<Rightarrow> Writer \<Rightarrow> event list \<times> Logger \<times> (panic + bool)" where
  "UpdateWriter env l w =
     (case w of
        None \<Rightarrow> ([], l, Inr False)
      | Some a \<Rightarrow>
          let hasLock = (case writer l of None \<Rightarrow> False | Some c \<Rightarrow> is_locker env c);
              newHasLock = is_locker env a
          in case (if hasLock \<and> newHasLock
                   then (case writer l of None \<Rightarrow> Inr False | Some c \<Rightarrow> iface_neq env c a)
                   else Inr False) of
               Inl p \<Rightarrow> ([], l, Inl p)
             | Inr True \<Rightarrow> ([], l, Inr False)
             | Inr False \<Rightarrow>
                 ((case writer l of
                     None \<Rightarrow> []
                   | Some c \<Rightarrow> if hasLock then [EvLock c, EvUnlock c] else []),
                  l\<lparr>writer := Some a\<rparr>, Inr True))"

section \<open>The write path\<close>

text \<open>
  The optional leading \<^verbatim>\<open>Caller\<close>: the depth clamped as the source does it, and
  the remaining components. The caller has checked that \<open>msg\<close> is not empty.
\<close>

definition callerDepth :: "'v arg list \<Rightarrow> int \<times> 'v arg list" where
  "callerDepth msg =
     (case msg of
        CallerArg depth # rest \<Rightarrow>
          ((if depth < 0 then 0 else if depth > 99 then 99 else depth), rest)
      | _ \<Rightarrow> (0, msg))"

text \<open>The call-site segment: written only when \<^verbatim>\<open>runtime.Caller(skip + 2)\<close> is ok.\<close>

definition callSite :: "'v env \<Rightarrow> int \<Rightarrow> string" where
  "callSite env skip =
     (case rt_caller env (skip + 2) of
        None \<Rightarrow> []
      | Some (file, line) \<Rightarrow>
          [CHR '' ''] @ path_base env file @ [CHR '':''] @ itoa env line @ [CHR '':''])"

text \<open>The message: a single string verbatim, anything else through \<^verbatim>\<open>fmt.Sprint\<close>.\<close>

definition render :: "'v env \<Rightarrow> 'v arg list \<Rightarrow> string" where
  "render env msg =
     (case msg of
        [x] \<Rightarrow> (case x of StringArg s \<Rightarrow> s | _ \<Rightarrow> sprint env [x])
      | _ \<Rightarrow> sprint env msg)"

text \<open>
  \<^verbatim>\<open>if b.Len() == 0 || b.String()[b.Len()-1] != '\n' { b.WriteByte('\n') }\<close>
\<close>

definition ensureNewline :: "string \<Rightarrow> string" where
  "ensureNewline b =
     (if length b = 0 \<or> b ! (length b - 1) \<noteq> CHR 0x0A then b @ [CHR 0x0A] else b)"

text \<open>
  The write itself: the sink is locked around it when it is a locker.
  \<^verbatim>\<open>io.WriteString\<close> on a nil interface dereferences nil.
\<close>

definition deliver :: "'v env \<Rightarrow> Logger \<Rightarrow> string \<Rightarrow> event list \<times> (panic + string option)" where
  "deliver env l s =
     (case writer l of
        None \<Rightarrow> ([], Inl NilDereference)
      | Some a \<Rightarrow>
          if is_locker env a
          then ([EvLock a, EvWrite a s, EvUnlock a], Inr (io_write env a s))
          else ([EvWrite a s], Inr (io_write env a s)))"

text \<open>
  Lines 184 to 225 of \<^verbatim>\<open>Log\<close>: the builder receives the timestamp, the name,
  the label (an index read, which panics out of range), the call site, a space and
  the message; then the newline check and the write.
\<close>

definition emit ::
  "'v env \<Rightarrow> Logger \<Rightarrow> Severity \<Rightarrow> int \<Rightarrow> 'v arg list \<Rightarrow> event list \<times> (panic + string option)" where
  "emit env l level skip msg =
     (let b0 = fmt_now env (useUTC l) (timeFormat l);
          b1 = b0 @ name l
      in if unat level < length (severityNames l)
         then (let b2 = b1 @ severityNames l ! unat level;
                   b3 = b2 @ callSite env skip;
                   b4 = b3 @ [CHR '' ''];
                   b5 = b4 @ render env msg
               in deliver env l (ensureNewline b5))
         else ([], Inl IndexOutOfRange))"

text \<open>
  \<^verbatim>\<open>Log\<close>: the events on sinks and either a panic or the returned error
  (\<open>Inr None\<close> is \<^verbatim>\<open>return nil\<close>).
\<close>

definition Log ::
  "'v env \<Rightarrow> Logger \<Rightarrow> Severity \<Rightarrow> 'v arg list \<Rightarrow> event list \<times> (panic + string option)" where
  "Log env l level msg =
     (if level < minLevel l \<or> level \<ge> DisableIssuer \<or> length msg = 0
      then ([], Inr None)
      else (let (skip, msg') = callerDepth msg
            in if length msg' = 0 then ([], Inr None)
               else emit env l level skip msg'))"

section \<open>Fatal and Fatalf\<close>

text \<open>
  What follows the call of \<^verbatim>\<open>Log\<close> in both: the panic message is
  \<^verbatim>\<open>l.Name() + l.severityNames[FatalIssuer]\<close>, with the error text appended when
  there is one. A panic inside \<^verbatim>\<open>Log\<close>, \<^verbatim>\<open>Name\<close> or the index read
  propagates.
\<close>

definition fatalPanic ::
  "Logger \<Rightarrow> event list \<times> (panic + string option) \<Rightarrow> event list \<times> (panic + string option)" where
  "fatalPanic l r =
     (case r of
        (evs, Inl p) \<Rightarrow> (evs, Inl p)
      | (evs, Inr err) \<Rightarrow>
          (case Name l of
             Inl p \<Rightarrow> (evs, Inl p)
           | Inr n \<Rightarrow>
               if unat FatalIssuer < length (severityNames l)
               then (let pm = n @ severityNames l ! unat FatalIssuer
                     in (evs, Inl (PanicMsg (case err of None \<Rightarrow> pm | Some e \<Rightarrow> pm @ e))))
               else (evs, Inl IndexOutOfRange)))"

definition Fatal ::
  "'v env \<Rightarrow> Logger \<Rightarrow> 'v arg list \<Rightarrow> event list \<times> (panic + string option)" where
  "Fatal env l msg = fatalPanic l (Log env l FatalIssuer msg)"

definition Fatalf ::
  "'v env \<Rightarrow> Logger \<Rightarrow> string \<Rightarrow> 'v arg list \<Rightarrow> event list \<times> (panic + string option)" where
  "Fatalf env l format args =
     fatalPanic l (Log env l FatalIssuer [StringArg (sprintf env format args)])"

section \<open>Loggers in use\<close>

text \<open>
  After construction a logger changes only through \<^verbatim>\<open>SetLevel\<close> and
  \<^verbatim>\<open>UpdateWriter\<close> (\<^verbatim>\<open>Log\<close> and the accessors do not assign to it). A call
  of \<^verbatim>\<open>UpdateWriter\<close> that panics has not assigned: the logger it leaves is the one
  it found.
\<close>

datatype op = OpSetLevel Severity | OpUpdateWriter Writer

fun apply_op :: "'v env \<Rightarrow> Logger \<Rightarrow> op \<Rightarrow> Logger" where
  "apply_op env l (OpSetLevel level) = SetLevel l level"
| "apply_op env l (OpUpdateWriter w) = fst (snd (UpdateWriter env l w))"

definition after_ops :: "'v env \<Rightarrow> Logger \<Rightarrow> op list \<Rightarrow> Logger" where
  "after_ops env l ops = foldl (apply_op env) l ops"

section \<open>Properties to state\<close>

text \<open>
  What construction establishes and the mutators keep: the name has the form
  \<^verbatim>\<open>": name:"\<close>, the writer is not nil, the minimum level is at most
  \<^verbatim>\<open>DisableIssuer\<close>, and there are five labels.
\<close>

definition well_formed :: "Logger \<Rightarrow> bool" where
  "well_formed l \<longleftrightarrow>
     3 \<le> length (name l) \<and> name l ! 0 = CHR '':'' \<and> name l ! 1 = CHR '' ''
     \<and> name l ! (length (name l) - 1) = CHR '':''
     \<and> writer l \<noteq> None \<and> minLevel l \<le> DisableIssuer \<and> length (severityNames l) = 5"

text \<open>The number of line terminators a string ends with.\<close>

definition trailing_newlines :: "string \<Rightarrow> nat" where
  "trailing_newlines s = length (takeWhile (\<lambda>c. c = CHR 0x0A) (rev s))"

text \<open>
  The line format as the specification words it: timestamp, name, label, the call-site
  segment when there is one, a space, the message, and a line terminator.
\<close>

definition spec_line :: "'v env \<Rightarrow> Logger \<Rightarrow> Severity \<Rightarrow> int \<Rightarrow> 'v arg list \<Rightarrow> string" where
  "spec_line env l level skip msg =
     fmt_now env (useUTC l) (timeFormat l) @ name l @ severityNames l ! unat level
     @ callSite env skip @ [CHR '' ''] @ render env msg @ [CHR 0x0A]"

subsection \<open>A concrete environment and logger\<close>

text \<open>
  A fixed clock, a stack whose frame 2 is \<^verbatim>\<open>/app/main.go:42\<close> and whose frame 3 is
  \<^verbatim>\<open>/app/wrap.go:7\<close>, sinks 1 and 2 that are lockers, sink 3 that is not, and
  sink 4 (not a locker) whose writes fail. Sinks 1 to 4 are pointers (type 0). Sinks 5
  and 6 are two values of one struct type with a slice field (type 1, not comparable)
  whose value methods are \<^verbatim>\<open>Write\<close>, \<^verbatim>\<open>Lock\<close> and \<^verbatim>\<open>Unlock\<close>.
\<close>

definition sample_env :: "unit env" where
  "sample_env =
     \<lparr>fmt_now = (\<lambda>utc layout. ''2024-01-02 03:04:05.000000''),
      rt_caller = (\<lambda>n. if n = 2 then Some (''/app/main.go'', 42)
                        else if n = 3 then Some (''/app/wrap.go'', 7) else None),
      path_base = (\<lambda>p. rev (takeWhile (\<lambda>c. c \<noteq> CHR ''/'') (rev p))),
      itoa = (\<lambda>i. if i = 42 then ''42'' else if i = 7 then ''7'' else ''0''),
      sprint = (\<lambda>args. concat (map (\<lambda>a. case a of StringArg s \<Rightarrow> s
                                                  | CallerArg d \<Rightarrow> ''0''
                                                  | ValueArg v \<Rightarrow> ''{}'') args)),
      sprintf = (\<lambda>format args. format),
      is_locker = (\<lambda>a. a = 1 \<or> a = 2 \<or> a = 5 \<or> a = 6),
      io_write = (\<lambda>a s. if a = 4 then Some ''disk full'' else None),
      dyn_type = (\<lambda>a. if a = 5 \<or> a = 6 then 1 else 0),
      comparable_type = (\<lambda>t. t = 0)\<rparr>"

definition sample_logger :: Logger where
  "sample_logger =
     \<lparr>name = '': svc:'', writer = Some 3, minLevel = InfoIssuer,
      timeFormat = ''2006-01-02 15:04:05.000000'', useUTC = False,
      severityNames = [''debug:'', ''info:'', ''warn:'', ''error:'', ''fatal:'']\<rparr>"

section \<open>Construction and the mutators keep a logger well formed\<close>

lemmas sev_defs = DebugIssuer_def InfoIssuer_def WarnIssuer_def ErrorIssuer_def FatalIssuer_def DisableIssuer_def

lemmas sample_defs = sample_env_def sample_logger_def sev_defs

lemma the_option_keeps:
  "name (the_option s l) = name l" "writer (the_option s l) = writer l"
  "minLevel (the_option s l) = minLevel l"
  "length (severityNames l) = 5 \<Longrightarrow> length (severityNames (the_option s l)) = 5"
  by (cases s; simp add: WithTimeFormat_def WithUTC_def WithSeverityNames_def)+

lemma the_option_well_formed: "well_formed l \<Longrightarrow> well_formed (the_option s l)"
  by (simp add: well_formed_def the_option_keeps)

lemma foldl_options_well_formed:
  "well_formed l \<Longrightarrow> well_formed (foldl (\<lambda>l opt. opt l) l (map the_option specs))"
  by (induction specs arbitrary: l) (simp_all add: the_option_well_formed)

lemma foldl_options_name:
  "name (foldl (\<lambda>l opt. opt l) l (map the_option specs)) = name l"
  by (induction specs arbitrary: l) (simp_all add: the_option_keeps)

lemma New_well_formed:
  assumes "New nm w lvl (map the_option specs) = Inr l"
  shows "well_formed l \<and> name l = nm"
proof -
  let ?d = "\<lparr>name = nm, writer = w, minLevel = lvl,
              timeFormat = ''2006-01-02 15:04:05.000000'', useUTC = False,
              severityNames = [''debug:'', ''info:'', ''warn:'', ''error:'', ''fatal:'']\<rparr>"
  from assms have g: "\<not> length nm < 3" "nm ! 0 = CHR '':''" "nm ! 1 = CHR '' ''"
    "nm ! (length nm - 1) = CHR '':''" "w \<noteq> None" "\<not> lvl > DisableIssuer"
    and l: "l = foldl (\<lambda>l opt. opt l) ?d (map the_option specs)"
    by (auto simp: New_def split: if_splits)
  from g have "well_formed ?d" by (simp add: well_formed_def)
  then show ?thesis unfolding l
    by (simp add: foldl_options_well_formed foldl_options_name)
qed

lemma SetLevel_well_formed: "well_formed l \<Longrightarrow> well_formed (SetLevel l level)"
  by (simp add: well_formed_def SetLevel_def)

lemma UpdateWriter_well_formed:
  "well_formed l \<Longrightarrow> well_formed (fst (snd (UpdateWriter env l w)))"
  by (simp add: well_formed_def UpdateWriter_def Let_def
      split: option.splits sum.splits bool.splits)

lemma apply_op_well_formed: "well_formed l \<Longrightarrow> well_formed (apply_op env l x)"
  by (cases x) (simp_all add: SetLevel_well_formed UpdateWriter_well_formed)

lemma apply_op_name: "name (apply_op env l x) = name l"
  by (cases x)
    (simp_all add: SetLevel_def UpdateWriter_def Let_def
      split: option.splits sum.splits bool.splits)

lemma after_ops_well_formed: "well_formed l \<Longrightarrow> well_formed (after_ops env l ops)"
  unfolding after_ops_def
  by (induction ops arbitrary: l) (simp_all add: apply_op_well_formed)

lemma after_ops_name: "name (after_ops env l ops) = name l"
  unfolding after_ops_def
  by (induction ops arbitrary: l) (simp_all add: apply_op_name)

lemma in_use_well_formed:
  "New nm w lvl (map the_option specs) = Inr l0 \<Longrightarrow> l = after_ops env l0 ops
   \<Longrightarrow> well_formed l \<and> name l = nm"
  using New_well_formed after_ops_well_formed after_ops_name by metis

lemma New_sample: "New '': svc:'' (Some 3) InfoIssuer (map the_option []) = Inr sample_logger"
  by (simp add: New_def sample_logger_def sev_defs)

section \<open>Construction\<close>

text \<open>
  Claim C7. The option built by \<^verbatim>\<open>WithSeverityNames\<close> replaces the labels when the
  sequence has exactly 5 entries, and leaves the whole logger as it was for any other
  length. It raises nothing: \<^verbatim>\<open>New\<close> with this option added panics exactly when
  \<^verbatim>\<open>New\<close> without it does.
\<close>

theorem WithSeverityNames_five:
  "severityNames (WithSeverityNames ns l) = (if length ns = 5 then ns else severityNames l)
   \<and> (length ns \<noteq> 5 \<longrightarrow> WithSeverityNames ns l = l)
   \<and> New nm w lvl (opts @ [WithSeverityNames ns])
       = (case New nm w lvl opts of Inl p \<Rightarrow> Inl p | Inr l' \<Rightarrow> Inr (WithSeverityNames ns l'))"
  by (simp add: WithSeverityNames_def New_def)

theorem WithSeverityNames_five_witness:
  "length [''a'', ''b''] \<noteq> 5
   \<and> WithSeverityNames [''a'', ''b''] sample_logger = sample_logger
   \<and> severityNames (WithSeverityNames [''D'', ''I'', ''W'', ''E'', ''F''] sample_logger)
       = [''D'', ''I'', ''W'', ''E'', ''F'']"
proof -
  have h: "length [''a'', ''b''] \<noteq> 5" by simp
  from WithSeverityNames_five [of "[''a'', ''b'']" sample_logger] h
    WithSeverityNames_five [of "[''D'', ''I'', ''W'', ''E'', ''F'']" sample_logger]
  show ?thesis by simp
qed

text \<open>
  Claim C8. The minimum level of a logger built by \<^verbatim>\<open>New\<close> is at most
  \<^verbatim>\<open>DisableIssuer\<close>, and stays so after any sequence of \<^verbatim>\<open>SetLevel\<close> and
  \<^verbatim>\<open>UpdateWriter\<close> calls. \<^verbatim>\<open>New\<close> panics when given a level above
  \<^verbatim>\<open>DisableIssuer\<close>. \<^verbatim>\<open>SetLevel\<close> stores its argument only when it is at most
  \<^verbatim>\<open>DisableIssuer\<close>; otherwise \<^verbatim>\<open>GetLevel\<close> still reports the previous value.
\<close>

theorem minLevel_invariant:
  "(New nm w lvl (map the_option specs) = Inr l0 \<longrightarrow>
      minLevel (after_ops env l0 ops) \<le> DisableIssuer)
   \<and> (lvl' > DisableIssuer \<longrightarrow> (\<exists>p. New nm' w' lvl' opts = Inl p))
   \<and> GetLevel (SetLevel l level) = (if level \<le> DisableIssuer then level else GetLevel l)"
proof (intro conjI impI)
  assume "New nm w lvl (map the_option specs) = Inr l0"
  from in_use_well_formed [OF this refl, where env = env and ops = ops]
  show "minLevel (after_ops env l0 ops) \<le> DisableIssuer"
    by (simp add: well_formed_def)
next
  assume "lvl' > DisableIssuer"
  then show "\<exists>p. New nm' w' lvl' opts = Inl p" by (simp add: New_def)
next
  show "GetLevel (SetLevel l level) = (if level \<le> DisableIssuer then level else GetLevel l)"
    by (simp add: GetLevel_def SetLevel_def)
qed

theorem minLevel_invariant_witness:
  "New '': svc:'' (Some 3) InfoIssuer (map the_option []) = Inr sample_logger
   \<and> minLevel (after_ops sample_env sample_logger [OpSetLevel WarnIssuer, OpSetLevel 6])
       \<le> DisableIssuer
   \<and> (6 :: Severity) > DisableIssuer
   \<and> (\<exists>p. New '': svc:'' (Some 3) 6 [] = Inl p)
   \<and> GetLevel (SetLevel (SetLevel sample_logger WarnIssuer) 6) = WarnIssuer"
proof -
  have h2: "(6 :: Severity) > DisableIssuer" by (simp add: sev_defs)
  have h3: "\<not> (6 :: Severity) \<le> DisableIssuer" by (simp add: sev_defs)
  have g: "GetLevel (SetLevel sample_logger WarnIssuer) = WarnIssuer"
    by (simp add: GetLevel_def SetLevel_def sev_defs)
  from minLevel_invariant [where nm = "'': svc:''" and w = "Some 3" and lvl = InfoIssuer
      and specs = "[]" and ?l0.0 = sample_logger and env = sample_env
      and ops = "[OpSetLevel WarnIssuer, OpSetLevel 6]" and lvl' = 6
      and nm' = "'': svc:''" and w' = "Some 3" and opts = "[]"
      and l = "SetLevel sample_logger WarnIssuer" and level = 6]
    New_sample h2 h3 g
  show ?thesis by simp
qed

subsection \<open>The name\<close>

lemma name_shape:
  assumes "3 \<le> length nm" "nm ! 0 = a" "nm ! 1 = b" "nm ! (length nm - 1) = c"
  shows "nm = a # b # take (length nm - 1 - 2) (drop 2 nm) @ [c]"
proof -
  from assms(1) obtain x y r where nm: "nm = x # y # r" and r: "r \<noteq> []"
    by (cases nm; cases "tl nm"; cases "tl (tl nm)") auto
  from r have br: "r = butlast r @ [last r]" by simp
  from assms(2,3) nm have xy: "x = a" "y = b" by simp_all
  from assms(4) nm r have "last r = c"
    by (simp add: last_conv_nth)
  moreover have "take (length nm - 1 - 2) (drop 2 nm) = butlast r"
    using nm by (simp add: butlast_conv_take)
  ultimately show ?thesis using nm xy br by simp
qed

lemma Name_well_formed:
  assumes "well_formed l"
  shows "\<exists>bare. Name l = Inr bare \<and> name l = '': '' @ bare @ '':''"
proof -
  from assms have g: "3 \<le> length (name l)" "name l ! 0 = CHR '':''" "name l ! 1 = CHR '' ''"
    "name l ! (length (name l) - 1) = CHR '':''" by (simp_all add: well_formed_def)
  from name_shape [OF g]
  have "name l = '': '' @ take (length (name l) - 1 - 2) (drop 2 (name l)) @ '':''" by simp
  moreover from g(1) have "Name l = Inr (take (length (name l) - 1 - 2) (drop 2 (name l)))"
    by (simp add: Name_def)
  ultimately show ?thesis by blast
qed

text \<open>
  Claim C9. For a logger built by \<^verbatim>\<open>New\<close>, at any later time, \<^verbatim>\<open>Name\<close>
  returns the string \<open>bare\<close> such that the configured name is a colon, a space,
  \<open>bare\<close> and a colon. A logger built with the name \<^verbatim>\<open>": x:"\<close> returns exactly
  \<^verbatim>\<open>"x"\<close>.
\<close>

theorem Name_strips_delimiters:
  "(New nm w lvl (map the_option specs) = Inr l0 \<longrightarrow>
      (\<exists>bare. Name (after_ops env l0 ops) = Inr bare \<and> nm = '': '' @ bare @ '':''))
   \<and> (w' \<noteq> None \<and> lvl' \<le> DisableIssuer \<longrightarrow>
      (\<exists>l. New '': x:'' w' lvl' (map the_option specs') = Inr l \<and> Name l = Inr ''x''))"
proof (intro conjI impI)
  assume "New nm w lvl (map the_option specs) = Inr l0"
  from in_use_well_formed [OF this refl, where env = env and ops = ops]
  have "well_formed (after_ops env l0 ops)" "name (after_ops env l0 ops) = nm" by simp_all
  with Name_well_formed [of "after_ops env l0 ops"]
  show "\<exists>bare. Name (after_ops env l0 ops) = Inr bare \<and> nm = '': '' @ bare @ '':''" by simp
next
  assume a: "w' \<noteq> None \<and> lvl' \<le> DisableIssuer"
  then have "\<not> lvl' > DisableIssuer" by (simp add: not_less)
  with a obtain l where l: "New '': x:'' w' lvl' (map the_option specs') = Inr l"
    by (simp add: New_def)
  from New_well_formed [OF l] have "name l = '': x:''" by simp
  then have "Name l = Inr ''x''" by (simp add: Name_def)
  with l show "\<exists>l. New '': x:'' w' lvl' (map the_option specs') = Inr l \<and> Name l = Inr ''x''"
    by blast
qed

theorem Name_strips_delimiters_witness:
  "New '': svc:'' (Some 3) InfoIssuer (map the_option []) = Inr sample_logger
   \<and> (\<exists>bare. Name (after_ops sample_env sample_logger [OpSetLevel ErrorIssuer]) = Inr bare
          \<and> '': svc:'' = '': '' @ bare @ '':'')
   \<and> Some (3::nat) \<noteq> None \<and> InfoIssuer \<le> DisableIssuer
   \<and> (\<exists>l. New '': x:'' (Some 3) InfoIssuer (map the_option [UTCOpt True]) = Inr l
          \<and> Name l = Inr ''x'')"
proof -
  have h: "Some (3::nat) \<noteq> None \<and> InfoIssuer \<le> DisableIssuer" by (simp add: sev_defs)
  from Name_strips_delimiters [where nm = "'': svc:''" and w = "Some 3" and lvl = InfoIssuer
      and specs = "[]" and ?l0.0 = sample_logger and env = sample_env
      and ops = "[OpSetLevel ErrorIssuer]" and w' = "Some 3" and lvl' = InfoIssuer
      and specs' = "[UTCOpt True]"]
    New_sample h
  show ?thesis by simp
qed

section \<open>Replacing the writer\<close>

text \<open>
  Where no comparison panics, \<^verbatim>\<open>UpdateWriter\<close> does what its comment says: nil is
  refused; two lockers that are not the same sink are refused; everything else is
  accepted and the new sink is the logger's writer.
\<close>

lemma UpdateWriter_nil: "UpdateWriter env l None = ([], l, Inr False)"
  by (simp add: UpdateWriter_def)

lemma UpdateWriter_refused:
  assumes "writer l = Some c" "is_locker env c" "is_locker env a" "c \<noteq> a"
    and "dyn_type env c \<noteq> dyn_type env a \<or> comparable_type env (dyn_type env c)"
  shows "UpdateWriter env l (Some a) = ([], l, Inr False)"
  using assms by (auto simp: UpdateWriter_def iface_neq_def)

lemma UpdateWriter_accepted:
  assumes "\<not> (\<exists>c. writer l = Some c \<and> is_locker env c \<and> is_locker env a
              \<and> (c \<noteq> a \<or> \<not> comparable_type env (dyn_type env c)))"
  shows "snd (UpdateWriter env l (Some a)) = (l\<lparr>writer := Some a\<rparr>, Inr True)"
  using assms by (auto simp: UpdateWriter_def iface_neq_def Let_def split: option.splits)

lemma UpdateWriter_panics:
  assumes "writer l = Some c" "is_locker env c" "is_locker env a"
    and "dyn_type env c = dyn_type env a" "\<not> comparable_type env (dyn_type env c)"
  shows "UpdateWriter env l (Some a) = ([], l, Inl UncomparableType)"
  using assms by (simp add: UpdateWriter_def iface_neq_def)

text \<open>
  A logger that \<^verbatim>\<open>New\<close> builds on sink 5, a locker whose dynamic type is a struct
  with a slice field.
\<close>

lemma New_on_uncomparable_sink:
  "New '': svc:'' (Some 5) InfoIssuer [] = Inr (sample_logger\<lparr>writer := Some 5\<rparr>)"
  by (simp add: New_def sample_defs)

text \<open>
  Claim C5 says that \<^verbatim>\<open>UpdateWriter\<close> returns false when the current sink and the
  new one are both lockers and are not the same sink, and returns true in every other
  case with a sink that is not nil. The comment of \<^verbatim>\<open>UpdateWriter\<close> says the same.
  The code does not at this input: the logger is the one built on sink 5, and the new
  sink 6 is another value of the same type. Both are lockers, so line 117 compares them,
  and the comparison panics: the call returns neither false nor true. The same happens
  when the new sink is sink 5 again, where the claim says true. The logger is left as it
  was and no lock is taken.
\<close>

theorem UpdateWriter_uncomparable_panics:
  "is_locker sample_env 5 \<and> is_locker sample_env 6 \<and> (5::nat) \<noteq> 6
   \<and> UpdateWriter sample_env (sample_logger\<lparr>writer := Some 5\<rparr>) (Some 6)
       = ([], sample_logger\<lparr>writer := Some 5\<rparr>, Inl UncomparableType)
   \<and> UpdateWriter sample_env (sample_logger\<lparr>writer := Some 5\<rparr>) (Some 5)
       = ([], sample_logger\<lparr>writer := Some 5\<rparr>, Inl UncomparableType)"
  by (simp add: UpdateWriter_def iface_neq_def sample_defs)

section \<open>The write path\<close>

subsection \<open>Filtering\<close>

text \<open>
  Claim C3. A call of \<^verbatim>\<open>Log\<close> whose level is below the configured minimum, or
  is \<^verbatim>\<open>DisableIssuer\<close> or greater, or whose message sequence is empty, returns nil
  and touches no sink: no lock is taken and nothing is written. This holds for every
  logger value and every environment.
\<close>

theorem Log_short_circuit:
  "level < minLevel l \<or> level \<ge> DisableIssuer \<or> msg = [] \<Longrightarrow> Log env l level msg = ([], Inr None)"
  by (auto simp: Log_def)

theorem Log_short_circuit_witness:
  "DebugIssuer < minLevel sample_logger
   \<and> Log sample_env sample_logger DebugIssuer [StringArg ''ready''] = ([], Inr None)"
proof -
  have h: "DebugIssuer < minLevel sample_logger" by (simp add: sample_logger_def sev_defs)
  then have "DebugIssuer < minLevel sample_logger \<or> DebugIssuer \<ge> DisableIssuer \<or> [StringArg ''ready''] = ([] :: unit arg list)"
    by simp
  from Log_short_circuit [OF this, of sample_env] h show ?thesis by simp
qed

subsection \<open>The line terminator\<close>

lemma ensureNewline_message:
  "ensureNewline (p @ [CHR '' ''] @ m)
     = p @ [CHR '' ''] @ m @ (if m \<noteq> [] \<and> last m = CHR 0x0A then [] else [CHR 0x0A])"
proof -
  let ?b = "p @ [CHR '' ''] @ m"
  have "?b \<noteq> []" by simp
  then have "?b ! (length ?b - 1) = last ?b" by (rule last_conv_nth [symmetric])
  moreover have "last ?b = (if m = [] then CHR '' '' else last m)" by simp
  ultimately have "?b ! (length ?b - 1) = (if m = [] then CHR '' '' else last m)" by simp
  then show ?thesis unfolding ensureNewline_def by auto
qed

lemma trailing_newlines_last:
  "m \<noteq> [] \<Longrightarrow> last m = CHR 0x0A \<Longrightarrow> 1 \<le> trailing_newlines m"
  by (cases m rule: rev_cases) (simp_all add: trailing_newlines_def)

lemma trailing_newlines_not_last:
  "m \<noteq> [] \<Longrightarrow> last m \<noteq> CHR 0x0A \<Longrightarrow> trailing_newlines (q @ m) = 0"
  by (cases m rule: rev_cases) (simp_all add: trailing_newlines_def)

lemma trailing_newlines_after_space:
  "trailing_newlines (p @ [CHR '' ''] @ m) = trailing_newlines m"
  by (simp add: trailing_newlines_def takeWhile_tail)

lemma trailing_newlines_snoc:
  "trailing_newlines (b @ [CHR 0x0A]) = Suc (trailing_newlines b)"
  by (simp add: trailing_newlines_def)

lemma trailing_newlines_ensureNewline:
  "trailing_newlines (ensureNewline (p @ [CHR '' ''] @ m)) = max 1 (trailing_newlines m)"
proof (cases "m \<noteq> [] \<and> last m = CHR 0x0A")
  case True
  then have "ensureNewline (p @ [CHR '' ''] @ m) = p @ [CHR '' ''] @ m"
    using ensureNewline_message [of p m] by simp
  then have "trailing_newlines (ensureNewline (p @ [CHR '' ''] @ m)) = trailing_newlines m"
    using trailing_newlines_after_space [of p m] by simp
  with True show ?thesis
    using trailing_newlines_last [of m] by simp
next
  case False
  then have e: "ensureNewline (p @ [CHR '' ''] @ m) = (p @ [CHR '' ''] @ m) @ [CHR 0x0A]"
    using ensureNewline_message [of p m] by simp
  have "trailing_newlines m = 0"
  proof (cases "m = []")
    case True then show ?thesis by (simp add: trailing_newlines_def)
  next
    case False
    with \<open>\<not> (m \<noteq> [] \<and> last m = CHR 0x0A)\<close> show ?thesis
      using trailing_newlines_not_last [of m "[]"] by simp
  qed
  then show ?thesis unfolding e trailing_newlines_snoc
    using trailing_newlines_after_space [of p m] by simp
qed

subsection \<open>Accepted calls\<close>

lemma word_lt_Disable: "level < DisableIssuer \<Longrightarrow> unat level < 5"
  by (simp add: DisableIssuer_def word_less_nat_alt)

lemma Log_accepted:
  assumes "\<not> level < minLevel l" "level < DisableIssuer" "msg \<noteq> []"
    "callerDepth msg = (skip, msg')" "msg' \<noteq> []"
  shows "Log env l level msg = emit env l level skip msg'"
proof -
  from assms(2) have "\<not> DisableIssuer \<le> level" by simp
  with assms show ?thesis by (simp add: Log_def)
qed

lemma emit_well_formed:
  assumes "well_formed l" "level < DisableIssuer"
  shows "\<exists>a. writer l = Some a \<and>
     emit env l level skip msg =
       (let line = ensureNewline ((fmt_now env (useUTC l) (timeFormat l) @ name l
                     @ severityNames l ! unat level @ callSite env skip)
                     @ [CHR '' ''] @ render env msg)
        in (if is_locker env a then [EvLock a, EvWrite a line, EvUnlock a] else [EvWrite a line],
            Inr (io_write env a line)))"
proof -
  from assms(1) obtain a where a: "writer l = Some a" and n: "length (severityNames l) = 5"
    by (auto simp: well_formed_def)
  from word_lt_Disable [OF assms(2)] n have "unat level < length (severityNames l)" by simp
  with a show ?thesis by (simp add: emit_def deliver_def Let_def)
qed

lemma Log_no_panic:
  assumes "well_formed l"
  shows "\<exists>err. snd (Log env l level msg) = Inr err"
proof (cases "level < minLevel l \<or> level \<ge> DisableIssuer \<or> msg = []")
  case True
  then show ?thesis by (auto simp: Log_def)
next
  case False
  then have lt: "level < DisableIssuer" by (simp add: not_le)
  obtain skip msg' where c: "callerDepth msg = (skip, msg')" by (cases "callerDepth msg")
  show ?thesis
  proof (cases "msg' = []")
    case True
    with False c show ?thesis by (simp add: Log_def)
  next
    case ne: False
    from False c ne have "Log env l level msg = emit env l level skip msg'"
      by (simp add: Log_def)
    with emit_well_formed [OF assms lt, of env skip msg'] show ?thesis
      by (auto simp: Let_def)
  qed
qed

text \<open>
  Claim C1 (as amended). Take a logger built by \<^verbatim>\<open>New\<close> and changed only by
  \<^verbatim>\<open>SetLevel\<close> and \<^verbatim>\<open>UpdateWriter\<close>, and an accepted call of
  \<^verbatim>\<open>Log\<close>: the level is at least the minimum and below \<^verbatim>\<open>DisableIssuer\<close>,
  and components remain after the optional caller-depth marker. Then exactly one string
  is written to the logger's sink (inside the sink's lock when it has one), and that
  string is, in order: the formatted timestamp, the configured name with its delimiters,
  the label of the level, then, only when the call site was resolved, a space and
  \<^verbatim>\<open><basefile>:<line>:\<close>, then a single space, then the rendered message, then a line
  terminator unless the rendered message already ends in one.
\<close>

theorem Log_line_format:
  assumes "New nm w lvl (map the_option specs) = Inr l0" "l = after_ops env l0 ops"
    and "\<not> level < minLevel l" "level < DisableIssuer" "msg \<noteq> []"
    and "callerDepth msg = (skip, msg')" "msg' \<noteq> []"
  shows "\<exists>a line. writer l = Some a
     \<and> fst (Log env l level msg)
         = (if is_locker env a then [EvLock a, EvWrite a line, EvUnlock a] else [EvWrite a line])
     \<and> line = fmt_now env (useUTC l) (timeFormat l) @ nm @ severityNames l ! unat level
          @ (case rt_caller env (skip + 2) of
               None \<Rightarrow> []
             | Some (file, ln) \<Rightarrow> '' '' @ path_base env file @ '':'' @ itoa env ln @ '':'')
          @ '' '' @ render env msg'
          @ (if render env msg' \<noteq> [] \<and> last (render env msg') = CHR 0x0A then [] else [CHR 0x0A])"
proof -
  from in_use_well_formed [OF assms(1,2)] have wf: "well_formed l" and nm: "name l = nm"
    by simp_all
  from emit_well_formed [OF wf assms(4), of env skip msg'] obtain a where
    a: "writer l = Some a" and
    e: "emit env l level skip msg' =
       (let line = ensureNewline ((fmt_now env (useUTC l) (timeFormat l) @ name l
                     @ severityNames l ! unat level @ callSite env skip)
                     @ [CHR '' ''] @ render env msg')
        in (if is_locker env a then [EvLock a, EvWrite a line, EvUnlock a] else [EvWrite a line],
            Inr (io_write env a line)))" by blast
  have L: "Log env l level msg = emit env l level skip msg'"
    by (rule Log_accepted [OF assms(3-7)])
  show ?thesis
    unfolding L e ensureNewline_message
    by (simp add: a nm callSite_def Let_def split: option.splits)
qed

theorem Log_line_format_witness:
  "New '': svc:'' (Some 3) InfoIssuer (map the_option []) = Inr sample_logger
   \<and> after_ops sample_env sample_logger [OpUpdateWriter (Some 1)] = sample_logger\<lparr>writer := Some 1\<rparr>
   \<and> \<not> WarnIssuer < minLevel (sample_logger\<lparr>writer := Some 1\<rparr>) \<and> WarnIssuer < DisableIssuer
   \<and> callerDepth [CallerArg 1, StringArg ''ready'' :: unit arg] = (1, [StringArg ''ready''])
   \<and> fst (Log sample_env (sample_logger\<lparr>writer := Some 1\<rparr>) WarnIssuer
             [CallerArg 1, StringArg ''ready''])
       = [EvLock 1, EvWrite 1 ''2024-01-02 03:04:05.000000: svc:warn: wrap.go:7: ready\<newline>'',
          EvUnlock 1]"
proof -
  let ?l = "sample_logger\<lparr>writer := Some 1\<rparr>"
  let ?msg = "[CallerArg 1, StringArg ''ready''] :: unit arg list"
  have h2: "?l = after_ops sample_env sample_logger [OpUpdateWriter (Some 1)]"
    by (simp add: after_ops_def UpdateWriter_def sample_defs)
  have h3: "\<not> WarnIssuer < minLevel ?l" and h4: "WarnIssuer < DisableIssuer"
    by (simp_all add: sample_defs)
  have h5: "?msg \<noteq> []" and h7: "[StringArg ''ready'' :: unit arg] \<noteq> []" by simp_all
  have h6: "callerDepth ?msg = (1, [StringArg ''ready''])" by (simp add: callerDepth_def)
  from Log_line_format [OF New_sample h2 h3 h4 h5 h6 h7]
  have "fst (Log sample_env ?l WarnIssuer ?msg)
       = [EvLock 1, EvWrite 1 ''2024-01-02 03:04:05.000000: svc:warn: wrap.go:7: ready\<newline>'',
          EvUnlock 1]"
    by (simp add: render_def sample_defs)
  with New_sample h2 h3 h4 h6 show ?thesis by simp
qed

text \<open>
  The format as the specification words it always closes the line with a terminator
  of its own. On the message \<^verbatim>\<open>"ready\n"\<close> the code writes the message's own
  terminator and nothing after it, so the written line is one byte shorter than
  \<open>spec_line\<close>.
\<close>

theorem Log_line_format_counterexample:
  "New '': svc:'' (Some 3) InfoIssuer [] = Inr sample_logger
   \<and> fst (Log sample_env sample_logger InfoIssuer [StringArg ''ready\<newline>''])
       = [EvWrite 3 ''2024-01-02 03:04:05.000000: svc:info: main.go:42: ready\<newline>'']
   \<and> spec_line sample_env sample_logger InfoIssuer 0 [StringArg ''ready\<newline>'']
       = ''2024-01-02 03:04:05.000000: svc:info: main.go:42: ready\<newline>\<newline>''
   \<and> fst (Log sample_env sample_logger InfoIssuer [StringArg ''ready\<newline>''])
       \<noteq> [EvWrite 3 (spec_line sample_env sample_logger InfoIssuer 0 [StringArg ''ready\<newline>''])]"
  by (simp add: New_def Log_def callerDepth_def emit_def callSite_def render_def
      ensureNewline_def deliver_def spec_line_def sample_defs word_le_nat_alt)

text \<open>
  Claim C2 (as amended). For every accepted call of \<^verbatim>\<open>Log\<close> on a logger in use,
  the written line is not empty and ends with a line terminator: one is appended when
  the rendered message does not end in one, and none is added when it does. The
  terminators the message itself ends with are kept, so the line ends with as many
  terminators as the message does, and with one when the message ends with none.
\<close>

theorem Log_trailing_newline:
  assumes "New nm w lvl (map the_option specs) = Inr l0" "l = after_ops env l0 ops"
    and "\<not> level < minLevel l" "level < DisableIssuer" "msg \<noteq> []"
    and "callerDepth msg = (skip, msg')" "msg' \<noteq> []"
  shows "\<exists>a line. writer l = Some a
     \<and> fst (Log env l level msg)
         = (if is_locker env a then [EvLock a, EvWrite a line, EvUnlock a] else [EvWrite a line])
     \<and> line \<noteq> [] \<and> last line = CHR 0x0A
     \<and> trailing_newlines line = max 1 (trailing_newlines (render env msg'))"
proof -
  from in_use_well_formed [OF assms(1,2)] have wf: "well_formed l" by simp
  let ?p = "fmt_now env (useUTC l) (timeFormat l) @ name l
                     @ severityNames l ! unat level @ callSite env skip"
  let ?line = "ensureNewline (?p @ [CHR '' ''] @ render env msg')"
  from emit_well_formed [OF wf assms(4), of env skip msg'] obtain a where
    a: "writer l = Some a" and
    e: "emit env l level skip msg' =
        (if is_locker env a then [EvLock a, EvWrite a ?line, EvUnlock a] else [EvWrite a ?line],
            Inr (io_write env a ?line))" by (auto simp: Let_def)
  have L: "Log env l level msg = emit env l level skip msg'"
    by (rule Log_accepted [OF assms(3-7)])
  have t: "trailing_newlines ?line = max 1 (trailing_newlines (render env msg'))"
    by (rule trailing_newlines_ensureNewline)
  have ne: "?line \<noteq> [] \<and> last ?line = CHR 0x0A"
    unfolding ensureNewline_message by simp
  show ?thesis
  proof (intro exI [of _ a] exI [of _ ?line] conjI)
    show "writer l = Some a" by (rule a)
    show "fst (Log env l level msg)
         = (if is_locker env a then [EvLock a, EvWrite a ?line, EvUnlock a] else [EvWrite a ?line])"
      unfolding L e by (rule fst_conv)
    show "?line \<noteq> []" using ne by (rule conjunct1)
    show "last ?line = CHR 0x0A" using ne by (rule conjunct2)
    show "trailing_newlines ?line = max 1 (trailing_newlines (render env msg'))" by (rule t)
  qed
qed

theorem Log_trailing_newline_witness:
  "New '': svc:'' (Some 3) InfoIssuer (map the_option []) = Inr sample_logger
   \<and> sample_logger = after_ops sample_env sample_logger []
   \<and> \<not> ErrorIssuer < minLevel sample_logger \<and> ErrorIssuer < DisableIssuer
   \<and> callerDepth [StringArg ''ready\<newline>'' :: unit arg] = (0, [StringArg ''ready\<newline>''])
   \<and> (\<exists>line. fst (Log sample_env sample_logger ErrorIssuer [StringArg ''ready\<newline>''])
                = [EvWrite 3 line] \<and> trailing_newlines line = 1)"
proof -
  let ?msg = "[StringArg ''ready\<newline>''] :: unit arg list"
  have h2: "sample_logger = after_ops sample_env sample_logger []"
    by (simp add: after_ops_def)
  have h3: "\<not> ErrorIssuer < minLevel sample_logger" and h4: "ErrorIssuer < DisableIssuer"
    by (simp_all add: sample_defs)
  have h5: "?msg \<noteq> []" by simp
  have h6: "callerDepth ?msg = (0, ?msg)" by (simp add: callerDepth_def)
  from Log_trailing_newline [OF New_sample h2 h3 h4 h5 h6 h5]
  obtain a line where w: "writer sample_logger = Some a"
    and f: "fst (Log sample_env sample_logger ErrorIssuer ?msg)
         = (if is_locker sample_env a then [EvLock a, EvWrite a line, EvUnlock a]
            else [EvWrite a line])"
    and t: "trailing_newlines line = max 1 (trailing_newlines (render sample_env ?msg))"
    by blast
  from w have a: "a = 3" by (simp add: sample_logger_def)
  have nl: "\<not> is_locker sample_env 3" by (simp add: sample_env_def)
  have "trailing_newlines (render sample_env ?msg) = 1"
    by (simp add: render_def trailing_newlines_def)
  with t have t1: "trailing_newlines line = 1" by simp
  from f a nl have "fst (Log sample_env sample_logger ErrorIssuer ?msg) = [EvWrite 3 line]"
    by simp
  with t1 have "\<exists>line. fst (Log sample_env sample_logger ErrorIssuer ?msg) = [EvWrite 3 line]
          \<and> trailing_newlines line = 1" by blast
  with New_sample h2 h3 h4 h6 show ?thesis by simp
qed

text \<open>
  A message that ends in two terminators gives a line that ends in two: the code adds
  none, and removes none.
\<close>

theorem Log_trailing_newline_counterexample:
  "New '': svc:'' (Some 3) InfoIssuer [] = Inr sample_logger
   \<and> fst (Log sample_env sample_logger InfoIssuer [StringArg ''ready\<newline>\<newline>''])
       = [EvWrite 3 ''2024-01-02 03:04:05.000000: svc:info: main.go:42: ready\<newline>\<newline>'']
   \<and> trailing_newlines ''2024-01-02 03:04:05.000000: svc:info: main.go:42: ready\<newline>\<newline>'' = 2"
  by (simp add: New_def Log_def callerDepth_def emit_def callSite_def render_def
      ensureNewline_def deliver_def trailing_newlines_def sample_defs word_le_nat_alt)

subsection \<open>The caller-depth marker\<close>

text \<open>
  Claim C4. When the first component is a caller-depth marker and nothing follows it,
  \<^verbatim>\<open>Log\<close> returns nil and touches no sink. When components follow and the level is
  accepted, the marker is removed before the line is built, and the depth \<open>k\<close> that
  reaches the call-site lookup lies in the closed range from 0 to 99: it is 0 for a
  negative marker, 99 for a marker above 99, and the marker's value otherwise.
\<close>

theorem Log_caller_marker:
  "Log env l level [CallerArg d] = ([], Inr None)
   \<and> (\<not> level < minLevel l \<and> level < DisableIssuer \<and> rest \<noteq> [] \<longrightarrow>
        (\<exists>k. 0 \<le> k \<and> k \<le> 99 \<and> (d < 0 \<longrightarrow> k = 0) \<and> (99 < d \<longrightarrow> k = 99)
           \<and> (0 \<le> d \<and> d \<le> 99 \<longrightarrow> k = d)
           \<and> Log env l level (CallerArg d # rest) = emit env l level k rest))"
proof (intro conjI impI)
  show "Log env l level [CallerArg d] = ([], Inr None)"
    by (simp add: Log_def callerDepth_def)
next
  assume a: "\<not> level < minLevel l \<and> level < DisableIssuer \<and> rest \<noteq> []"
  let ?k = "if d < 0 then 0 else if d > 99 then 99 else d"
  have c: "callerDepth (CallerArg d # rest) = (?k, rest)" by (simp add: callerDepth_def)
  from a have "Log env l level (CallerArg d # rest) = emit env l level ?k rest"
    using Log_accepted [OF _ _ _ c, of level l env] by simp
  moreover have "0 \<le> ?k \<and> ?k \<le> 99 \<and> (d < 0 \<longrightarrow> ?k = 0) \<and> (99 < d \<longrightarrow> ?k = 99)
           \<and> (0 \<le> d \<and> d \<le> 99 \<longrightarrow> ?k = d)" by simp
  ultimately show "\<exists>k. 0 \<le> k \<and> k \<le> 99 \<and> (d < 0 \<longrightarrow> k = 0) \<and> (99 < d \<longrightarrow> k = 99)
           \<and> (0 \<le> d \<and> d \<le> 99 \<longrightarrow> k = d)
           \<and> Log env l level (CallerArg d # rest) = emit env l level k rest" by blast
qed

theorem Log_caller_marker_witness:
  "\<not> InfoIssuer < minLevel sample_logger \<and> InfoIssuer < DisableIssuer
   \<and> [StringArg ''ready'' :: unit arg] \<noteq> []
   \<and> Log sample_env sample_logger InfoIssuer [CallerArg 150, StringArg ''ready'']
       = emit sample_env sample_logger InfoIssuer 99 [StringArg ''ready'']
   \<and> Log sample_env sample_logger InfoIssuer [CallerArg 150] = ([], Inr None)"
proof -
  have h: "\<not> InfoIssuer < minLevel sample_logger \<and> InfoIssuer < DisableIssuer
     \<and> [StringArg ''ready'' :: unit arg] \<noteq> []"
    by (simp add: sample_defs)
  from Log_caller_marker [of sample_env sample_logger InfoIssuer 150 "[StringArg ''ready'']"] h
  show ?thesis by auto
qed

subsection \<open>The label read\<close>



section \<open>Fatal and Fatalf always panic\<close>

lemma fatalPanic_well_formed:
  assumes "well_formed l" "r = (evs, Inr err)"
  shows "\<exists>bare. Name l = Inr bare \<and>
     fatalPanic l r = (evs, Inl (PanicMsg (bare @ severityNames l ! unat FatalIssuer
                                   @ (case err of None \<Rightarrow> [] | Some e \<Rightarrow> e))))"
proof -
  from Name_well_formed [OF assms(1)] obtain bare where b: "Name l = Inr bare" by blast
  from assms(1) have "unat FatalIssuer < length (severityNames l)"
    by (simp add: well_formed_def FatalIssuer_def)
  with b assms(2) show ?thesis
    by (simp add: fatalPanic_def Let_def split: option.splits)
qed

text \<open>
  Claim C6. For a logger in use, \<^verbatim>\<open>Fatal\<close> and \<^verbatim>\<open>Fatalf\<close> never return:
  the write path itself does not panic, it runs at level \<^verbatim>\<open>FatalIssuer\<close>, and then
  the call panics with the bare name followed by the fatal label, followed by the
  error text exactly when the write path returned an error. This is so whatever the
  write path did; in particular when the minimum level is above
  \<^verbatim>\<open>FatalIssuer\<close> nothing is written and the panic message is the bare name and the
  label.
\<close>

theorem Fatal_always_panics:
  assumes "New nm w lvl (map the_option specs) = Inr l0" "l = after_ops env l0 ops"
  shows "\<exists>bare. Name l = Inr bare
     \<and> (\<exists>err. Log env l FatalIssuer msg = (fst (Log env l FatalIssuer msg), Inr err)
          \<and> Fatal env l msg =
              (fst (Log env l FatalIssuer msg),
               Inl (PanicMsg (bare @ severityNames l ! unat FatalIssuer
                                @ (case err of None \<Rightarrow> [] | Some e \<Rightarrow> e)))))
     \<and> (\<exists>err. Log env l FatalIssuer [StringArg (sprintf env format args)]
                 = (fst (Log env l FatalIssuer [StringArg (sprintf env format args)]), Inr err)
          \<and> Fatalf env l format args =
              (fst (Log env l FatalIssuer [StringArg (sprintf env format args)]),
               Inl (PanicMsg (bare @ severityNames l ! unat FatalIssuer
                                @ (case err of None \<Rightarrow> [] | Some e \<Rightarrow> e)))))
     \<and> (FatalIssuer < minLevel l \<longrightarrow>
          Fatal env l msg = ([], Inl (PanicMsg (bare @ severityNames l ! unat FatalIssuer)))
          \<and> Fatalf env l format args
              = ([], Inl (PanicMsg (bare @ severityNames l ! unat FatalIssuer))))"
proof -
  from in_use_well_formed [OF assms] have wf: "well_formed l" by simp
  from Name_well_formed [OF wf] obtain bare where b: "Name l = Inr bare" by blast
  have part: "\<exists>err. Log env l FatalIssuer m = (fst (Log env l FatalIssuer m), Inr err)
          \<and> fatalPanic l (Log env l FatalIssuer m) =
              (fst (Log env l FatalIssuer m),
               Inl (PanicMsg (bare @ severityNames l ! unat FatalIssuer
                                @ (case err of None \<Rightarrow> [] | Some e \<Rightarrow> e))))" for m
  proof -
    from Log_no_panic [OF wf, of env FatalIssuer m] obtain err where
      "snd (Log env l FatalIssuer m) = Inr err" by blast
    then have r: "Log env l FatalIssuer m = (fst (Log env l FatalIssuer m), Inr err)"
      by (simp add: prod_eq_iff)
    from fatalPanic_well_formed [OF wf r] b r show ?thesis by auto
  qed
  have filt: "FatalIssuer < minLevel l \<Longrightarrow>
      fatalPanic l (Log env l FatalIssuer m)
        = ([], Inl (PanicMsg (bare @ severityNames l ! unat FatalIssuer)))" for m
  proof -
    assume "FatalIssuer < minLevel l"
    then have "Log env l FatalIssuer m = ([], Inr None)" by (simp add: Log_def)
    with fatalPanic_well_formed [OF wf this] b show ?thesis by auto
  qed
  show ?thesis
    unfolding Fatal_def Fatalf_def
    using b part [of msg] part [of "[StringArg (sprintf env format args)]"]
      filt [of msg] filt [of "[StringArg (sprintf env format args)]"]
    by blast
qed

theorem Fatal_always_panics_witness:
  "New '': svc:'' (Some 3) InfoIssuer (map the_option []) = Inr sample_logger
   \<and> sample_logger\<lparr>writer := Some 4\<rparr>
       = after_ops sample_env sample_logger [OpUpdateWriter (Some 4)]
   \<and> snd (Fatal sample_env (sample_logger\<lparr>writer := Some 4\<rparr>) [StringArg ''boom''])
       = Inl (PanicMsg ''svcfatal:disk full'')
   \<and> sample_logger\<lparr>minLevel := DisableIssuer\<rparr>
       = after_ops sample_env sample_logger [OpSetLevel DisableIssuer]
   \<and> FatalIssuer < minLevel (sample_logger\<lparr>minLevel := DisableIssuer\<rparr>)
   \<and> Fatal sample_env (sample_logger\<lparr>minLevel := DisableIssuer\<rparr>) [StringArg ''boom'']
       = ([], Inl (PanicMsg ''svcfatal:''))
   \<and> Fatalf sample_env (sample_logger\<lparr>minLevel := DisableIssuer\<rparr>) ''boom %d'' [ValueArg ()]
       = ([], Inl (PanicMsg ''svcfatal:''))"
proof -
  let ?l4 = "sample_logger\<lparr>writer := Some 4\<rparr>"
  let ?ld = "sample_logger\<lparr>minLevel := DisableIssuer\<rparr>"
  let ?msg = "[StringArg ''boom''] :: unit arg list"
  have h4: "?l4 = after_ops sample_env sample_logger [OpUpdateWriter (Some 4)]"
    by (simp add: after_ops_def UpdateWriter_def sample_defs)
  have hd: "?ld = after_ops sample_env sample_logger [OpSetLevel DisableIssuer]"
    by (simp add: after_ops_def SetLevel_def sample_defs)
  have lt: "FatalIssuer < minLevel ?ld" by (simp add: sev_defs)
  have n: "Name ?l4 = Inr ''svc''" "Name ?ld = Inr ''svc''"
    by (simp_all add: Name_def sample_logger_def)
  have e: "snd (Log sample_env ?l4 FatalIssuer ?msg) = Inr (Some ''disk full'')"
    by (simp add: Log_def callerDepth_def emit_def deliver_def sample_defs)
  have lab: "severityNames ?l4 ! unat FatalIssuer = ''fatal:''"
    "severityNames ?ld ! unat FatalIssuer = ''fatal:''"
    by (simp_all add: sample_defs)
  from Fatal_always_panics [OF New_sample h4, of ?msg]
  obtain bare err where nb: "Name ?l4 = Inr bare"
    and lg: "Log sample_env ?l4 FatalIssuer ?msg
               = (fst (Log sample_env ?l4 FatalIssuer ?msg), Inr err)"
    and f: "Fatal sample_env ?l4 ?msg =
              (fst (Log sample_env ?l4 FatalIssuer ?msg),
               Inl (PanicMsg (bare @ severityNames ?l4 ! unat FatalIssuer
                                @ (case err of None \<Rightarrow> [] | Some e \<Rightarrow> e))))"
    by blast
  from nb n(1) have bare: "bare = ''svc''" by simp
  from lg have "snd (Log sample_env ?l4 FatalIssuer ?msg) = Inr err" by (metis snd_conv)
  with e have err: "err = Some ''disk full''" by simp
  have a: "snd (Fatal sample_env ?l4 ?msg) = Inl (PanicMsg ''svcfatal:disk full'')"
    unfolding f bare err lab by simp
  from Fatal_always_panics [OF New_sample hd, of ?msg "''boom %d''" "[ValueArg ()]"]
  obtain bare' where nb': "Name ?ld = Inr bare'"
    and imp: "FatalIssuer < minLevel ?ld \<longrightarrow>
          Fatal sample_env ?ld ?msg
            = ([], Inl (PanicMsg (bare' @ severityNames ?ld ! unat FatalIssuer)))
          \<and> Fatalf sample_env ?ld ''boom %d'' [ValueArg ()]
              = ([], Inl (PanicMsg (bare' @ severityNames ?ld ! unat FatalIssuer)))"
    by blast
  from nb' n(2) have bare': "bare' = ''svc''" by simp
  from imp lt have b: "Fatal sample_env ?ld ?msg = ([], Inl (PanicMsg ''svcfatal:''))
     \<and> Fatalf sample_env ?ld ''boom %d'' [ValueArg ()] = ([], Inl (PanicMsg ''svcfatal:''))"
    unfolding bare' lab by simp
  from New_sample h4 hd lt a b show ?thesis by simp
qed

end
